theory Spec2Isabelle
  imports Complex_Main
begin

section \<open>Arrays, variables and graph expressions\<close>

text \<open>
  A numeric array is its shape, its dtype and its elements in flattening order. An
  element is a number or the not-a-number marker; the truth values of a \<open>bool\<close> array
  are the numbers 0 and 1.
\<close>

datatype elem = Num real | NaN

record ndarray =
  shape :: "nat list"
  np_dtype :: string
  data :: "elem list"

text \<open>
  A tensor variable of the graph. \<open>vid\<close> stands for the identity of the node: two
  variables are the same node exactly when the records are equal, and two nodes that
  differ in \<open>vid\<close> may carry the same \<open>name\<close>. The other fields are the attributes
  the code reads: \<open>var.name\<close>, \<open>var.dtype\<close>, \<open>var.dshape\<close> and
  \<open>var.tag.test_value\<close>.
\<close>

record variable =
  vid :: nat
  name :: string
  dtype :: string
  dshape :: "nat list"
  tag_test_value :: ndarray

text \<open>A constant-holding placeholder, as \<open>theano.shared(value, name)\<close> makes it.\<close>

record shared_variable =
  sid :: nat
  svalue :: ndarray
  sname :: string

text \<open>
  Graph expressions: the leaves and the operations this module builds.
  \<open>Grad f w\<close> stands for the graph \<open>tt.grad(f, w)\<close> builds, \<open>Item e i\<close> for
  \<open>e[i]\<close>, \<open>Index0 e\<close> for \<open>e[0]\<close>, \<open>Subtensor e a b\<close> for the slice
  \<open>e[a:b]\<close>, \<open>Shape0 e\<close> for \<open>e.shape[0]\<close>, and \<open>TheanoMap body idx\<close> for
  \<open>theano.map(fn, idx)[0]\<close> where \<open>body\<close> is \<open>fn\<close> traced at the index
  \<open>LoopVar\<close>. A node carries a test value unless it is marked: \<open>NoTestValue e\<close> is
  the node \<open>e\<close> without a test value.
\<close>

datatype expr =
    TensorVariable variable
  | SharedVariable shared_variable
  | TensorConstant ndarray
  | LoopVar
  | Apply string "expr list"
  | Grad expr expr
  | Flatten expr
  | Concatenate "expr list" nat
  | Zeros nat string
  | ARange expr string
  | Shape0 expr
  | Item expr expr
  | Index0 expr
  | Subtensor expr nat nat
  | TheanoMap expr expr
  | Neg expr
  | Ravel expr
  | Reshape expr "nat list"
  | Astype expr string
  | NoTestValue expr

text \<open>The exceptions a call can end with.\<close>

datatype exn = ValueError | KeyError | StopIteration | Raised string

definition bind_exn :: "exn + 'a \<Rightarrow> ('a \<Rightarrow> exn + 'b) \<Rightarrow> exn + 'b" where
  "bind_exn r k = (case r of Inl e \<Rightarrow> Inl e | Inr x \<Rightarrow> k x)"

fun map_exn :: "('a \<Rightarrow> exn + 'b) \<Rightarrow> 'a list \<Rightarrow> exn + 'b list" where
  "map_exn k [] = Inr []"
| "map_exn k (x # xs) =
     bind_exn (k x) (\<lambda>y. bind_exn (map_exn k xs) (\<lambda>ys. Inr (y # ys)))"

section \<open>Test values\<close>

text \<open>
  The setting \<open>config.compute_test_value\<close> of the graph library. When it is not
  \<open>off\<close>, applying an operation computes the test value of the new node from the
  test values of its inputs. Where an input has none, \<open>raise\<close> ends the call with
  \<open>ValueError\<close>, \<open>pdb\<close> enters the debugger and the call does not return a
  node, and \<open>ignore\<close> and \<open>warn\<close> go on and leave the new node without a test
  value. Under \<open>off\<close> no test value is looked at and none is computed.
\<close>

datatype compute_test_value = Off | Ignore | Warn | Raise | Pdb

fun has_test_value :: "expr \<Rightarrow> bool" where
  "has_test_value (NoTestValue e) = False"
| "has_test_value _ = True"

definition op_result :: "compute_test_value \<Rightarrow> expr list \<Rightarrow> expr \<Rightarrow> exn + expr" where
  "op_result flag ins node =
     (if flag = Off then Inr (NoTestValue node)
      else if list_all has_test_value ins then Inr node
      else (case flag of
              Raise \<Rightarrow> Inl ValueError
            | Pdb \<Rightarrow> Inl (Raised ''pdb'')
            | _ \<Rightarrow> Inr (NoTestValue node)))"

section \<open>Inputs of an expression\<close>

text \<open>
  \<open>theano.gof.graph.inputs\<close>: the leaves of the given expressions, each once, in the
  order a depth-first traversal first meets them. The traversal starts from the last of
  the given expressions.
\<close>

fun leaves :: "expr \<Rightarrow> expr list" where
  "leaves (TensorVariable v) = [TensorVariable v]"
| "leaves (SharedVariable s) = [SharedVariable s]"
| "leaves (TensorConstant c) = [TensorConstant c]"
| "leaves LoopVar = [LoopVar]"
| "leaves (Apply f es) = concat (map leaves es)"
| "leaves (Grad e w) = leaves e @ leaves w"
| "leaves (Flatten e) = leaves e"
| "leaves (Concatenate es ax) = concat (map leaves es)"
| "leaves (Zeros n d) = []"
| "leaves (ARange e d) = leaves e"
| "leaves (Shape0 e) = leaves e"
| "leaves (Item e i) = leaves e @ leaves i"
| "leaves (Index0 e) = leaves e"
| "leaves (Subtensor e a b) = leaves e"
| "leaves (TheanoMap b i) = leaves b @ leaves i"
| "leaves (Neg e) = leaves e"
| "leaves (Ravel e) = leaves e"
| "leaves (Reshape e s) = leaves e"
| "leaves (Astype e d) = leaves e"
| "leaves (NoTestValue e) = leaves e"

fun first_seen :: "'a list \<Rightarrow> 'a list \<Rightarrow> 'a list" where
  "first_seen seen [] = []"
| "first_seen seen (x # xs) =
     (if x \<in> set seen then first_seen seen xs else x # first_seen (x # seen) xs)"

definition inputs :: "expr list \<Rightarrow> expr list" where
  "inputs es = first_seen [] (concat (map leaves (rev es)))"

fun makeiter :: "expr + expr list \<Rightarrow> expr list" where
  "makeiter (Inr es) = es"
| "makeiter (Inl e) = [e]"

fun as_tensor_variable :: "expr \<Rightarrow> variable option" where
  "as_tensor_variable (TensorVariable v) = Some v"
| "as_tensor_variable _ = None"

definition inputvars :: "expr + expr list \<Rightarrow> variable list" where
  "inputvars a = List.map_filter as_tensor_variable (inputs (makeiter a))"

text \<open>
  Modelled from the spec: \<open>typefilter\<close>, which is imported from another module, keeps
  the variables that satisfy a type predicate. The predicate \<open>continuous_types\<close> stands
  for is the parameter \<open>ct\<close> of the functions below.
\<close>

definition typefilter :: "variable list \<Rightarrow> (variable \<Rightarrow> bool) \<Rightarrow> variable list" where
  "typefilter vs types = filter types vs"

definition cont_inputs :: "(variable \<Rightarrow> bool) \<Rightarrow> expr \<Rightarrow> variable list" where
  "cont_inputs ct f = typefilter (inputvars (Inl f)) ct"

section \<open>Derivative functions\<close>

text \<open>
  Every call of the graph library is an operation applied to its arguments under the
  setting \<open>flag\<close>. The variables differentiated against carry their test values.
\<close>

definition gradient1 :: "compute_test_value \<Rightarrow> expr \<Rightarrow> variable \<Rightarrow> exn + expr" where
  "gradient1 flag f v =
     bind_exn (op_result flag [f, TensorVariable v] (Grad f (TensorVariable v)))
       (\<lambda>g. op_result flag [g] (Flatten g))"

text \<open>
  \<open>empty_gradient\<close> is built when the module is imported, before any setting of the
  caller's applies: under the library's default \<open>off\<close>, so it carries no test value.
\<close>

definition empty_gradient :: expr where
  "empty_gradient = NoTestValue (Zeros 0 ''float32'')"

definition resolve_vars :: "(variable \<Rightarrow> bool) \<Rightarrow> expr \<Rightarrow> variable list option \<Rightarrow> variable list" where
  "resolve_vars ct f vars = (case vars of None \<Rightarrow> cont_inputs ct f | Some vs \<Rightarrow> vs)"

text \<open>The bodies of the four memoized functions, before the decorator is applied.\<close>

definition gradient_body ::
  "compute_test_value \<Rightarrow> (variable \<Rightarrow> bool) \<Rightarrow> expr \<Rightarrow> variable list option \<Rightarrow> exn + expr" where
  "gradient_body flag ct f vars =
     (let vs = resolve_vars ct f vars
      in if vs \<noteq> []
         then bind_exn (map_exn (gradient1 flag f) vs)
                (\<lambda>gs. op_result flag gs (Concatenate gs 0))
         else Inr empty_gradient)"

text \<open>
  The index a \<open>theano.map\<close> body is traced with is an element of \<open>idx\<close>; it has a
  test value when \<open>idx\<close> has one.
\<close>

definition loop_index :: "expr \<Rightarrow> expr" where
  "loop_index idx = (if has_test_value idx then LoopVar else NoTestValue LoopVar)"

definition jacobian1 :: "compute_test_value \<Rightarrow> expr \<Rightarrow> variable \<Rightarrow> exn + expr" where
  "jacobian1 flag f v =
     bind_exn (op_result flag [f] (Flatten f)) (\<lambda>f'.
     bind_exn (op_result flag [f'] (Shape0 f')) (\<lambda>n.
     bind_exn (op_result flag [n] (ARange n ''int32'')) (\<lambda>idx.
     bind_exn (op_result flag [f', loop_index idx] (Item f' (loop_index idx))) (\<lambda>fi.
     bind_exn (gradient1 flag fi v) (\<lambda>grad_i.
     op_result flag [idx] (TheanoMap grad_i idx))))))"

definition jacobian_body ::
  "compute_test_value \<Rightarrow> (variable \<Rightarrow> bool) \<Rightarrow> expr \<Rightarrow> variable list option \<Rightarrow> exn + expr" where
  "jacobian_body flag ct f vars =
     (let vs = resolve_vars ct f vars
      in if vs \<noteq> []
         then bind_exn (map_exn (jacobian1 flag f) vs)
                (\<lambda>js. op_result flag js (Concatenate js 1))
         else Inr empty_gradient)"

definition hessian_diag1 :: "compute_test_value \<Rightarrow> expr \<Rightarrow> variable \<Rightarrow> exn + expr" where
  "hessian_diag1 flag f v =
     bind_exn (gradient1 flag f v) (\<lambda>g.
     bind_exn (op_result flag [g] (Shape0 g)) (\<lambda>n.
     bind_exn (op_result flag [n] (ARange n ''int32'')) (\<lambda>idx.
     bind_exn (op_result flag [g, loop_index idx] (Item g (loop_index idx))) (\<lambda>gi.
     bind_exn (gradient1 flag gi v) (\<lambda>gg.
     bind_exn (op_result flag [gg, loop_index idx] (Item gg (loop_index idx))) (\<lambda>hess_ii.
     op_result flag [idx] (TheanoMap hess_ii idx)))))))"

definition hessian_diag_body ::
  "compute_test_value \<Rightarrow> (variable \<Rightarrow> bool) \<Rightarrow> expr \<Rightarrow> variable list option \<Rightarrow> exn + expr" where
  "hessian_diag_body flag ct f vars =
     (let vs = resolve_vars ct f vars
      in if vs \<noteq> []
         then bind_exn (map_exn (hessian_diag1 flag f) vs) (\<lambda>hs.
              bind_exn (op_result flag hs (Concatenate hs 0)) (\<lambda>c.
              op_result flag [c] (Neg c)))
         else Inr empty_gradient)"

text \<open>The unary minus of \<open>hessian\<close>: the negation, applied to what \<open>jacobian\<close> returned.\<close>

definition tt_neg :: "compute_test_value \<Rightarrow> expr \<Rightarrow> exn + expr" where
  "tt_neg flag j = op_result flag [j] (Neg j)"

subsection \<open>Memoization\<close>

text \<open>
  Modelled from the spec: the \<open>memoize\<close> decorator, which is imported from another
  module. Each decorated function owns a cache keyed by its arguments; a call whose key
  is cached returns the cached result, any other call runs the body and stores what it
  returned. A body that raises stores nothing.
\<close>

type_synonym memo_key = "expr \<times> variable list option"

record caches =
  gradient_cache :: "memo_key \<rightharpoonup> expr"
  jacobian_cache :: "memo_key \<rightharpoonup> expr"
  hessian_cache :: "memo_key \<rightharpoonup> expr"
  hessian_diag_cache :: "memo_key \<rightharpoonup> expr"

definition empty_caches :: caches where
  "empty_caches = \<lparr>gradient_cache = Map.empty, jacobian_cache = Map.empty,
     hessian_cache = Map.empty, hessian_diag_cache = Map.empty\<rparr>"

definition gradient ::
  "compute_test_value \<Rightarrow> (variable \<Rightarrow> bool) \<Rightarrow> expr \<Rightarrow> variable list option \<Rightarrow> caches
     \<Rightarrow> (exn + expr) \<times> caches" where
  "gradient flag ct f vars s =
     (case gradient_cache s (f, vars) of
        Some r \<Rightarrow> (Inr r, s)
      | None \<Rightarrow>
          (case gradient_body flag ct f vars of
             Inl e \<Rightarrow> (Inl e, s)
           | Inr r \<Rightarrow> (Inr r, s\<lparr>gradient_cache := (gradient_cache s)((f, vars) \<mapsto> r)\<rparr>)))"

definition jacobian ::
  "compute_test_value \<Rightarrow> (variable \<Rightarrow> bool) \<Rightarrow> expr \<Rightarrow> variable list option \<Rightarrow> caches
     \<Rightarrow> (exn + expr) \<times> caches" where
  "jacobian flag ct f vars s =
     (case jacobian_cache s (f, vars) of
        Some r \<Rightarrow> (Inr r, s)
      | None \<Rightarrow>
          (case jacobian_body flag ct f vars of
             Inl e \<Rightarrow> (Inl e, s)
           | Inr r \<Rightarrow> (Inr r, s\<lparr>jacobian_cache := (jacobian_cache s)((f, vars) \<mapsto> r)\<rparr>)))"

definition hessian_body ::
  "compute_test_value \<Rightarrow> (variable \<Rightarrow> bool) \<Rightarrow> expr \<Rightarrow> variable list option \<Rightarrow> caches
     \<Rightarrow> (exn + expr) \<times> caches" where
  "hessian_body flag ct f vars s =
     (case gradient flag ct f vars s of
        (Inl e, s1) \<Rightarrow> (Inl e, s1)
      | (Inr g, s1) \<Rightarrow>
          (case jacobian flag ct g vars s1 of
             (Inl e, s2) \<Rightarrow> (Inl e, s2)
           | (Inr j, s2) \<Rightarrow> (tt_neg flag j, s2)))"

definition hessian ::
  "compute_test_value \<Rightarrow> (variable \<Rightarrow> bool) \<Rightarrow> expr \<Rightarrow> variable list option \<Rightarrow> caches
     \<Rightarrow> (exn + expr) \<times> caches" where
  "hessian flag ct f vars s =
     (case hessian_cache s (f, vars) of
        Some r \<Rightarrow> (Inr r, s)
      | None \<Rightarrow>
          (case hessian_body flag ct f vars s of
             (Inl e, s') \<Rightarrow> (Inl e, s')
           | (Inr r, s') \<Rightarrow> (Inr r, s'\<lparr>hessian_cache := (hessian_cache s')((f, vars) \<mapsto> r)\<rparr>)))"

definition hessian_diag ::
  "compute_test_value \<Rightarrow> (variable \<Rightarrow> bool) \<Rightarrow> expr \<Rightarrow> variable list option \<Rightarrow> caches
     \<Rightarrow> (exn + expr) \<times> caches" where
  "hessian_diag flag ct f vars s =
     (case hessian_diag_cache s (f, vars) of
        Some r \<Rightarrow> (Inr r, s)
      | None \<Rightarrow>
          (case hessian_diag_body flag ct f vars of
             Inl e \<Rightarrow> (Inl e, s)
           | Inr r \<Rightarrow>
               (Inr r, s\<lparr>hessian_diag_cache := (hessian_diag_cache s)((f, vars) \<mapsto> r)\<rparr>)))"

text \<open>
  The cache states a run of the program under one setting can be in: the caches start
  empty and only calls of the four decorated functions change them.
\<close>

inductive reachable :: "compute_test_value \<Rightarrow> (variable \<Rightarrow> bool) \<Rightarrow> caches \<Rightarrow> bool"
  for flag ct where
  start: "reachable flag ct empty_caches"
| after_gradient: "reachable flag ct s \<Longrightarrow> reachable flag ct (snd (gradient flag ct f vars s))"
| after_jacobian: "reachable flag ct s \<Longrightarrow> reachable flag ct (snd (jacobian flag ct f vars s))"
| after_hessian: "reachable flag ct s \<Longrightarrow> reachable flag ct (snd (hessian flag ct f vars s))"
| after_hessian_diag:
    "reachable flag ct s \<Longrightarrow> reachable flag ct (snd (hessian_diag flag ct f vars s))"

text \<open>
  The invariant of the caches: every entry is what the body returns for its key, where
  the body of \<open>hessian\<close> without the caches is \<open>hessian_value\<close>.
\<close>

definition hessian_value ::
  "compute_test_value \<Rightarrow> (variable \<Rightarrow> bool) \<Rightarrow> expr \<Rightarrow> variable list option \<Rightarrow> exn + expr" where
  "hessian_value flag ct f vars =
     bind_exn (gradient_body flag ct f vars) (\<lambda>g.
     bind_exn (jacobian_body flag ct g vars) (tt_neg flag))"

definition caches_ok :: "compute_test_value \<Rightarrow> (variable \<Rightarrow> bool) \<Rightarrow> caches \<Rightarrow> bool" where
  "caches_ok flag ct s \<longleftrightarrow>
     (\<forall>f vars r. gradient_cache s (f, vars) = Some r \<longrightarrow> gradient_body flag ct f vars = Inr r) \<and>
     (\<forall>f vars r. jacobian_cache s (f, vars) = Some r \<longrightarrow> jacobian_body flag ct f vars = Inr r) \<and>
     (\<forall>f vars r. hessian_cache s (f, vars) = Some r \<longrightarrow> hessian_value flag ct f vars = Inr r) \<and>
     (\<forall>f vars r. hessian_diag_cache s (f, vars) = Some r \<longrightarrow>
        hessian_diag_body flag ct f vars = Inr r)"

text \<open>
  The shape of an expression where the node itself fixes it: \<open>tt.zeros(n)\<close> is a
  vector of length \<open>n\<close>, a constant has the shape of its value, and negation and a
  cast keep the shape of their argument.
\<close>

fun static_shape :: "expr \<Rightarrow> nat list option" where
  "static_shape (Zeros n d) = Some [n]"
| "static_shape (TensorConstant c) = Some (shape c)"
| "static_shape (Neg e) = static_shape e"
| "static_shape (Astype e d) = static_shape e"
| "static_shape (Reshape e s) = Some s"
| "static_shape (NoTestValue e) = static_shape e"
| "static_shape _ = None"

fun static_dtype :: "expr \<Rightarrow> string option" where
  "static_dtype (Zeros n d) = Some d"
| "static_dtype (TensorVariable v) = Some (dtype v)"
| "static_dtype (Neg e) = static_dtype e"
| "static_dtype (Astype e d) = Some d"
| "static_dtype (Reshape e s) = static_dtype e"
| "static_dtype (NoTestValue e) = static_dtype e"
| "static_dtype _ = None"

section \<open>Shared replacements and joined inputs\<close>

text \<open>
  Creating a graph object gives it an identity no earlier object has. The state is
  the next unused identity; \<open>theano.shared\<close> and the construction of a new tensor
  variable take it and advance it.
\<close>

definition theano_shared :: "ndarray \<Rightarrow> string \<Rightarrow> nat \<Rightarrow> shared_variable \<times> nat" where
  "theano_shared v nm st = (\<lparr>sid = st, svalue = v, sname = nm\<rparr>, Suc st)"

record model =
  model_vars :: "variable list"

fun shared_for :: "variable list \<Rightarrow> nat \<Rightarrow> (variable \<times> shared_variable) list \<times> nat" where
  "shared_for [] st = ([], st)"
| "shared_for (var # rest) st =
     (let (s, st1) = theano_shared (tag_test_value var) (name var @ ''_shared'') st;
          (items, st2) = shared_for rest st1
      in ((var, s) # items, st2))"

text \<open>
  \<open>othervars\<close> is a Python set; the comprehension visits it in some order, here the
  order of \<open>model.vars\<close> with repetitions dropped. The result, a dict, is the list
  of its items; its keys are distinct.
\<close>

definition make_shared_replacements ::
  "variable list \<Rightarrow> model \<Rightarrow> nat \<Rightarrow> (variable \<times> shared_variable) list \<times> nat" where
  "make_shared_replacements vars m st =
     (let othervars = filter (\<lambda>v. v \<notin> set vars) (remdups (model_vars m))
      in shared_for othervars st)"

text \<open>
  Modelled from the spec: the element count of a variable, and \<open>ArrayOrdering\<close>,
  which is imported from another module. Its \<open>vmap\<close> holds, for each variable in list
  order, the tuple of name, slice, shape and dtype; the slices partition the flat vector
  contiguously in list order.
\<close>

definition dsize :: "variable \<Rightarrow> nat" where
  "dsize v = prod_list (dshape v)"

type_synonym varmap = "string \<times> (nat \<times> nat) \<times> nat list \<times> string"

fun vmap_from :: "nat \<Rightarrow> variable list \<Rightarrow> varmap list" where
  "vmap_from start [] = []"
| "vmap_from start (var # rest) =
     (name var, (start, start + dsize var), dshape var, dtype var)
       # vmap_from (start + dsize var) rest"

definition ArrayOrdering :: "variable list \<Rightarrow> varmap list" where
  "ArrayOrdering vars = vmap_from 0 vars"

definition reshape_t :: "expr \<Rightarrow> nat list \<Rightarrow> expr" where
  "reshape_t x shp = (if shp \<noteq> [] then Reshape x shp else Index0 x)"

text \<open>A dict built from items in order: a later item replaces an earlier one with its key.\<close>

definition dict_of :: "('k \<times> 'v) list \<Rightarrow> ('k \<rightharpoonup> 'v)" where
  "dict_of items = foldl (\<lambda>d (k, v). d(k \<mapsto> v)) Map.empty items"

text \<open>
  The items of the comprehension that builds \<open>replace\<close>: one per entry of
  \<open>ordering.vmap\<close>, its key looked up in \<open>get_var\<close> by name.
\<close>

fun replace_items :: "(string \<rightharpoonup> variable) \<Rightarrow> expr \<Rightarrow> varmap list \<Rightarrow> exn + (variable \<times> expr) list" where
  "replace_items get_var inarray [] = Inr []"
| "replace_items get_var inarray ((var, slc, shp, dtyp) # rest) =
     (case get_var var of
        None \<Rightarrow> Inl KeyError
      | Some key \<Rightarrow>
          (case replace_items get_var inarray rest of
             Inl e \<Rightarrow> Inl e
           | Inr items \<Rightarrow>
               Inr ((key, Astype (reshape_t (Subtensor inarray (fst slc) (snd slc)) shp) dtyp) # items)))"

definition join_replace :: "expr \<Rightarrow> variable list \<Rightarrow> (variable \<rightharpoonup> expr) \<Rightarrow> exn + (variable \<rightharpoonup> expr)" where
  "join_replace inarray vars shared =
     (let ordering = ArrayOrdering vars;
          get_var = dict_of (map (\<lambda>var. (name var, var)) vars)
      in case replace_items get_var inarray ordering of
           Inl e \<Rightarrow> Inl e
         | Inr items \<Rightarrow> Inr (dict_of items ++ shared))"

text \<open>
  \<open>theano.clone(x, replace, strict=False)\<close>: every occurrence of a mapped variable
  is replaced; a mapped variable that does not occur is no error.
\<close>

fun clone :: "(variable \<rightharpoonup> expr) \<Rightarrow> expr \<Rightarrow> expr" where
  "clone r (TensorVariable v) = (case r v of Some e \<Rightarrow> e | None \<Rightarrow> TensorVariable v)"
| "clone r (SharedVariable s) = SharedVariable s"
| "clone r (TensorConstant c) = TensorConstant c"
| "clone r LoopVar = LoopVar"
| "clone r (Apply f es) = Apply f (map (clone r) es)"
| "clone r (Grad e w) = Grad (clone r e) (clone r w)"
| "clone r (Flatten e) = Flatten (clone r e)"
| "clone r (Concatenate es ax) = Concatenate (map (clone r) es) ax"
| "clone r (Zeros n d) = Zeros n d"
| "clone r (ARange e d) = ARange (clone r e) d"
| "clone r (Shape0 e) = Shape0 (clone r e)"
| "clone r (Item e i) = Item (clone r e) (clone r i)"
| "clone r (Index0 e) = Index0 (clone r e)"
| "clone r (Subtensor e a b) = Subtensor (clone r e) a b"
| "clone r (TheanoMap b i) = TheanoMap (clone r b) (clone r i)"
| "clone r (Neg e) = Neg (clone r e)"
| "clone r (Ravel e) = Ravel (clone r e)"
| "clone r (Reshape e s) = Reshape (clone r e) s"
| "clone r (Astype e d) = Astype (clone r e) d"
| "clone r (NoTestValue e) = NoTestValue (clone r e)"

text \<open>
  The test value of \<open>joined\<close>: the raveled test values of the variables, each element
  converted to the dtype of \<open>joined\<close>, joined. That dtype is what the graph library
  gives a concatenation of the variables' dtypes, the parameter \<open>upcast\<close>; the
  conversion of an element to a dtype is the parameter \<open>cast\<close>.
\<close>

definition joined_test_value ::
  "(string list \<Rightarrow> string) \<Rightarrow> (string \<Rightarrow> elem \<Rightarrow> elem) \<Rightarrow> variable list \<Rightarrow> ndarray" where
  "joined_test_value upcast cast vars =
     (let d = upcast (map dtype vars);
          elems = concat (map (\<lambda>var. map (cast d) (data (tag_test_value var))) vars)
      in \<lparr>shape = [length elems], np_dtype = d, data = elems\<rparr>)"

text \<open>
  \<open>join_nonshared_inputs\<close>. \<open>tt.concatenate\<close> of an empty list raises. The
  function reads \<open>joined.tag.test_value\<close>: it runs where test values are computed, and
  the variables carry theirs.
\<close>

definition join_nonshared_inputs ::
  "(string list \<Rightarrow> string) \<Rightarrow> (string \<Rightarrow> elem \<Rightarrow> elem) \<Rightarrow> expr list \<Rightarrow> variable list
     \<Rightarrow> (variable \<rightharpoonup> expr) \<Rightarrow> bool \<Rightarrow> nat \<Rightarrow> (exn + expr list \<times> expr) \<times> nat" where
  "join_nonshared_inputs upcast cast xs vars shared make_shared st =
     (if vars = [] then (Inl ValueError, st)
      else
        (let joined = Concatenate (map (\<lambda>var. Ravel (TensorVariable var)) vars) 0;
             inarray =
               (if \<not> make_shared
                then TensorVariable \<lparr>vid = st, name = ''inarray'', dtype = upcast (map dtype vars),
                       dshape = shape (joined_test_value upcast cast vars),
                       tag_test_value = joined_test_value upcast cast vars\<rparr>
                else SharedVariable
                       (fst (theano_shared (joined_test_value upcast cast vars) ''inarray'' st)))
         in case join_replace inarray vars shared of
              Inl e \<Rightarrow> (Inl e, Suc st)
            | Inr replace \<Rightarrow> (Inr (map (clone replace) xs, inarray), Suc st)))"

section \<open>The callable tensor\<close>

text \<open>
  \<open>CallableTensor.__call__\<close> on the wrapped \<open>tensor\<close>: unpacking a list that has
  not exactly one element raises.
\<close>

definition CallableTensor_call :: "expr \<Rightarrow> expr \<Rightarrow> exn + expr" where
  "CallableTensor_call tensor input =
     (case inputvars (Inl tensor) of
        [oldinput] \<Rightarrow> Inr (clone [oldinput \<mapsto> input] tensor)
      | _ \<Rightarrow> Inl ValueError)"

section \<open>The generator operation\<close>

datatype TensorType = TensorType string "bool list"

text \<open>
  Modelled from the spec: the stream source \<open>DataGenerator\<close>, which is imported
  from another module. It exposes a tensor type and a sample value, and yields one array
  per request until its elements are used up; from then on every request raises
  \<open>StopIteration\<close>. \<open>gen\<close> holds the elements not yet yielded.
\<close>

record data_generator =
  gen :: "ndarray list"
  test_value :: ndarray
  tensortype :: TensorType

definition DataGenerator_next :: "data_generator \<Rightarrow> (exn + ndarray) \<times> data_generator" where
  "DataGenerator_next g =
     (case gen g of
        [] \<Rightarrow> (Inl StopIteration, g)
      | x # rest \<Rightarrow> (Inr x, g\<lparr>gen := rest\<rparr>))"

text \<open>
  What a caller passes for \<open>gen\<close>: a \<open>DataGenerator\<close>, or anything else, a plain
  iterator over arrays. The constructor \<open>DataGenerator(gen)\<close> is the parameter \<open>mk\<close>
  of the functions below; it may raise.
\<close>

datatype source = Wrapped data_generator | Plain "ndarray list"

definition np_zeros_like :: "ndarray \<Rightarrow> ndarray" where
  "np_zeros_like a = a\<lparr>data := map (\<lambda>_. Num 0) (data a)\<rparr>"

text \<open>
  The assignment \<open>a[...] = np.nan\<close>. An array of a floating or complex dtype takes the
  marker in every element, a \<open>bool\<close> array takes \<open>True\<close>, and for an integer array
  the assignment raises \<open>ValueError\<close>.
\<close>

definition nan_dtypes :: "string list" where
  "nan_dtypes = [''float16'', ''float32'', ''float64'', ''complex64'', ''complex128'']"

definition np_fill_nan :: "ndarray \<Rightarrow> exn + ndarray" where
  "np_fill_nan a =
     (if np_dtype a \<in> set nan_dtypes then Inr (a\<lparr>data := map (\<lambda>_. NaN) (data a)\<rparr>)
      else if np_dtype a = ''bool'' then Inr (a\<lparr>data := map (\<lambda>_. Num 1) (data a)\<rparr>)
      else Inl ValueError)"

record generator_op =
  generator :: data_generator
  itypes :: "TensorType list"
  otypes :: "TensorType list"
  op_nan :: ndarray

definition as_data_generator :: "(ndarray list \<Rightarrow> exn + data_generator) \<Rightarrow> source \<Rightarrow> exn + data_generator" where
  "as_data_generator mk a = (case a of Wrapped g \<Rightarrow> Inr g | Plain it \<Rightarrow> mk it)"

definition GeneratorOp_init :: "(ndarray list \<Rightarrow> exn + data_generator) \<Rightarrow> source \<Rightarrow> exn + generator_op" where
  "GeneratorOp_init mk a =
     (case as_data_generator mk a of
        Inl e \<Rightarrow> Inl e
      | Inr g \<Rightarrow>
          (case np_fill_nan (np_zeros_like (test_value g)) of
             Inl e \<Rightarrow> Inl e
           | Inr nan \<Rightarrow>
               Inr \<lparr>generator = g, itypes = [], otypes = [tensortype g], op_nan = nan\<rparr>))"

text \<open>
  \<open>perform\<close> returns what it stores in \<open>output_storage[0][0]\<close>. Only
  \<open>StopIteration\<close> is caught.
\<close>

definition GeneratorOp_perform :: "generator_op \<Rightarrow> (exn + ndarray) \<times> generator_op" where
  "GeneratorOp_perform op =
     (case DataGenerator_next (generator op) of
        (Inr x, g) \<Rightarrow> (Inr x, op\<lparr>generator := g\<rparr>)
      | (Inl StopIteration, g) \<Rightarrow> (Inr (op_nan op), op\<lparr>generator := g\<rparr>)
      | (Inl e, g) \<Rightarrow> (Inl e, op\<lparr>generator := g\<rparr>))"

text \<open>\<open>n\<close> evaluations in a row, with what each one yielded.\<close>

fun performs :: "nat \<Rightarrow> generator_op \<Rightarrow> (exn + ndarray) list \<times> generator_op" where
  "performs 0 op = ([], op)"
| "performs (Suc n) op =
     (let (r, op1) = GeneratorOp_perform op;
          (rs, op2) = performs n op1
      in (r # rs, op2))"

text \<open>
  The variable an operation without inputs returns when called. Building a node under
  a setting other than \<open>off\<close> evaluates the operation at once for the node's test
  value.
\<close>

record op_output =
  out_types :: "TensorType list"
  out_test_value :: "ndarray option"

definition Op_call :: "compute_test_value \<Rightarrow> generator_op \<Rightarrow> (exn + op_output) \<times> generator_op" where
  "Op_call flag op =
     (if flag \<noteq> Off
      then (case GeneratorOp_perform op of
              (Inr v, op1) \<Rightarrow> (Inr \<lparr>out_types = otypes op, out_test_value = Some v\<rparr>, op1)
            | (Inl e, op1) \<Rightarrow> (Inl e, op1))
      else (Inr \<lparr>out_types = otypes op, out_test_value = None\<rparr>, op))"

text \<open>
  \<open>GeneratorOp.__call__\<close> under \<open>change_flags(compute_test_value='off')\<close>: the
  setting is switched off for the call and put back afterwards. The results are the
  node, the setting after the call and the operation after the call. The attribute
  \<open>rval.set_gen\<close> is a handle on \<open>set_gen\<close> of the operation.
\<close>

definition GeneratorOp_call ::
  "compute_test_value \<Rightarrow> generator_op \<Rightarrow> (exn + op_output) \<times> compute_test_value \<times> generator_op" where
  "GeneratorOp_call flag op =
     (let saved = flag;
          (r, op1) = Op_call Off op
      in case r of
           Inl e \<Rightarrow> (Inl e, saved, op1)
         | Inr rval \<Rightarrow>
             (Inr (rval\<lparr>out_test_value := Some (test_value (generator op1))\<rparr>), saved, op1))"

text \<open>\<open>set_gen\<close>: what the call ends with, and the operation afterwards.\<close>

definition GeneratorOp_set_gen ::
  "(ndarray list \<Rightarrow> exn + data_generator) \<Rightarrow> source \<Rightarrow> generator_op \<Rightarrow> (exn + unit) \<times> generator_op" where
  "GeneratorOp_set_gen mk a op =
     (case as_data_generator mk a of
        Inl e \<Rightarrow> (Inl e, op)
      | Inr g \<Rightarrow>
          (if \<not> (tensortype g = tensortype (generator op))
           then (Inl ValueError, op)
           else (Inr (), op\<lparr>generator := g\<rparr>)))"

section \<open>Example values\<close>

text \<open>
  Two variables \<open>x\<close> and \<open>y\<close>, a second node that is also named \<open>x\<close>, a few
  arrays, and a source constructor that takes the first element as the sample and still
  yields every element.
\<close>

definition ex_x :: variable where
  "ex_x = \<lparr>vid = 1, name = ''x'', dtype = ''float64'', dshape = [2],
            tag_test_value = \<lparr>shape = [2], np_dtype = ''float64'', data = [Num 1, Num 2]\<rparr>\<rparr>"

definition ex_y :: variable where
  "ex_y = \<lparr>vid = 2, name = ''y'', dtype = ''float32'', dshape = [],
            tag_test_value = \<lparr>shape = [], np_dtype = ''float32'', data = [Num 3]\<rparr>\<rparr>"

definition ex_x2 :: variable where
  "ex_x2 = \<lparr>vid = 3, name = ''x'', dtype = ''float32'', dshape = [],
             tag_test_value = \<lparr>shape = [], np_dtype = ''float32'', data = [Num 3]\<rparr>\<rparr>"

definition ex_inarray :: expr where
  "ex_inarray = TensorVariable \<lparr>vid = 10, name = ''inarray'', dtype = ''float64'', dshape = [3],
                  tag_test_value =
                    \<lparr>shape = [3], np_dtype = ''float64'', data = [Num 1, Num 2, Num 3]\<rparr>\<rparr>"

definition arr_a :: ndarray where
  "arr_a = \<lparr>shape = [2], np_dtype = ''float64'', data = [Num 1, Num 2]\<rparr>"

definition arr_b :: ndarray where
  "arr_b = \<lparr>shape = [2], np_dtype = ''float64'', data = [Num 3, Num 4]\<rparr>"

definition arr_c :: ndarray where
  "arr_c = \<lparr>shape = [3], np_dtype = ''float64'', data = [Num 7, Num 8, Num 9]\<rparr>"

definition arr_m :: ndarray where
  "arr_m = \<lparr>shape = [1, 2], np_dtype = ''float64'', data = [Num 5, Num 6]\<rparr>"

definition arr_nan :: ndarray where
  "arr_nan = \<lparr>shape = [2], np_dtype = ''float64'', data = [NaN, NaN]\<rparr>"

definition sample_first :: "ndarray list \<Rightarrow> exn + data_generator" where
  "sample_first it =
     (case it of
        [] \<Rightarrow> Inl StopIteration
      | x # rest \<Rightarrow>
          Inr \<lparr>gen = it, test_value = x,
               tensortype = TensorType (np_dtype x) (replicate (length (shape x)) False)\<rparr>)"

definition ex_op :: generator_op where
  "ex_op = \<lparr>generator = \<lparr>gen = [arr_a, arr_b], test_value = arr_a,
                           tensortype = TensorType ''float64'' [False]\<rparr>,
             itypes = [], otypes = [TensorType ''float64'' [False]], op_nan = arr_nan\<rparr>"

section \<open>Properties of the derivative functions\<close>

lemma gradient_result:
  "caches_ok flag ct s \<Longrightarrow> fst (gradient flag ct f vars s) = gradient_body flag ct f vars"
  by (auto simp: gradient_def caches_ok_def split: option.splits sum.splits)

lemma gradient_caches_ok:
  "caches_ok flag ct s \<Longrightarrow> caches_ok flag ct (snd (gradient flag ct f vars s))"
  by (auto simp: gradient_def caches_ok_def split: option.splits sum.splits)

lemma jacobian_result:
  "caches_ok flag ct s \<Longrightarrow> fst (jacobian flag ct f vars s) = jacobian_body flag ct f vars"
  by (auto simp: jacobian_def caches_ok_def split: option.splits sum.splits)

lemma jacobian_caches_ok:
  "caches_ok flag ct s \<Longrightarrow> caches_ok flag ct (snd (jacobian flag ct f vars s))"
  by (auto simp: jacobian_def caches_ok_def split: option.splits sum.splits)

lemma hessian_diag_result:
  "caches_ok flag ct s \<Longrightarrow>
     fst (hessian_diag flag ct f vars s) = hessian_diag_body flag ct f vars"
  by (auto simp: hessian_diag_def caches_ok_def split: option.splits sum.splits)

lemma hessian_diag_caches_ok:
  "caches_ok flag ct s \<Longrightarrow> caches_ok flag ct (snd (hessian_diag flag ct f vars s))"
  by (auto simp: hessian_diag_def caches_ok_def split: option.splits sum.splits)

lemma hessian_body_result:
  assumes "caches_ok flag ct s"
  shows "fst (hessian_body flag ct f vars s) = hessian_value flag ct f vars"
proof -
  define s1 where "s1 = snd (gradient flag ct f vars s)"
  have g: "gradient flag ct f vars s = (gradient_body flag ct f vars, s1)"
    using gradient_result [OF assms, of f vars] by (simp add: s1_def prod_eq_iff)
  have ok1: "caches_ok flag ct s1"
    unfolding s1_def using assms by (rule gradient_caches_ok)
  define s2 where "s2 = (\<lambda>gr. snd (jacobian flag ct gr vars s1))"
  have j: "jacobian flag ct gr vars s1 = (jacobian_body flag ct gr vars, s2 gr)" for gr
    using jacobian_result [OF ok1, of gr vars] by (simp add: s2_def prod_eq_iff)
  show ?thesis
  proof (cases "gradient_body flag ct f vars")
    case (Inl e)
    then show ?thesis
      by (simp add: hessian_body_def hessian_value_def bind_exn_def g)
  next
    case (Inr gr)
    show ?thesis
    proof (cases "jacobian_body flag ct gr vars")
      case (Inl e)
      with Inr j [of gr] show ?thesis
        by (simp add: hessian_body_def hessian_value_def bind_exn_def g)
    next
      case (Inr jr)
      with \<open>gradient_body flag ct f vars = Inr gr\<close> j [of gr] show ?thesis
        by (simp add: hessian_body_def hessian_value_def bind_exn_def g)
    qed
  qed
qed

lemma hessian_body_caches_ok:
  assumes "caches_ok flag ct s"
  shows "caches_ok flag ct (snd (hessian_body flag ct f vars s))"
proof -
  define s1 where "s1 = snd (gradient flag ct f vars s)"
  have g: "gradient flag ct f vars s = (gradient_body flag ct f vars, s1)"
    using gradient_result [OF assms, of f vars] by (simp add: s1_def prod_eq_iff)
  have ok1: "caches_ok flag ct s1"
    unfolding s1_def using assms by (rule gradient_caches_ok)
  define s2 where "s2 = (\<lambda>gr. snd (jacobian flag ct gr vars s1))"
  have j: "jacobian flag ct gr vars s1 = (jacobian_body flag ct gr vars, s2 gr)" for gr
    using jacobian_result [OF ok1, of gr vars] by (simp add: s2_def prod_eq_iff)
  have ok2: "caches_ok flag ct (s2 gr)" for gr
    unfolding s2_def using ok1 by (rule jacobian_caches_ok)
  show ?thesis
  proof (cases "gradient_body flag ct f vars")
    case (Inl e)
    then show ?thesis
      using ok1 by (simp add: hessian_body_def g)
  next
    case (Inr gr)
    show ?thesis
    proof (cases "jacobian_body flag ct gr vars")
      case (Inl e)
      with Inr j [of gr] ok2 [of gr] show ?thesis
        by (simp add: hessian_body_def g)
    next
      case (Inr jr)
      with \<open>gradient_body flag ct f vars = Inr gr\<close> j [of gr] ok2 [of gr] show ?thesis
        by (simp add: hessian_body_def g)
    qed
  qed
qed

lemma hessian_result:
  assumes "caches_ok flag ct s"
  shows "fst (hessian flag ct f vars s) = hessian_value flag ct f vars"
proof (cases "hessian_cache s (f, vars)")
  case None
  define s' where "s' = snd (hessian_body flag ct f vars s)"
  have b: "hessian_body flag ct f vars s = (hessian_value flag ct f vars, s')"
    using hessian_body_result [OF assms, of f vars] by (simp add: s'_def prod_eq_iff)
  show ?thesis
  proof (cases "hessian_value flag ct f vars")
    case (Inl e)
    with None b show ?thesis by (simp add: hessian_def)
  next
    case (Inr h)
    with None b show ?thesis by (simp add: hessian_def)
  qed
next
  case (Some r)
  with assms have "hessian_value flag ct f vars = Inr r"
    by (simp add: caches_ok_def)
  with Some show ?thesis by (simp add: hessian_def)
qed

lemma hessian_caches_ok:
  assumes "caches_ok flag ct s"
  shows "caches_ok flag ct (snd (hessian flag ct f vars s))"
proof (cases "hessian_cache s (f, vars)")
  case None
  define s' where "s' = snd (hessian_body flag ct f vars s)"
  have b: "hessian_body flag ct f vars s = (hessian_value flag ct f vars, s')"
    using hessian_body_result [OF assms, of f vars] by (simp add: s'_def prod_eq_iff)
  have ok: "caches_ok flag ct s'"
    unfolding s'_def using assms by (rule hessian_body_caches_ok)
  show ?thesis
  proof (cases "hessian_value flag ct f vars")
    case (Inl e)
    with None b ok show ?thesis by (simp add: hessian_def)
  next
    case (Inr h)
    with ok
    have "caches_ok flag ct (s'\<lparr>hessian_cache := (hessian_cache s')((f, vars) \<mapsto> h)\<rparr>)"
      by (auto simp: caches_ok_def)
    with None b Inr show ?thesis by (simp add: hessian_def)
  qed
next
  case (Some r)
  with assms show ?thesis by (simp add: hessian_def)
qed

lemma caches_ok_empty: "caches_ok flag ct empty_caches"
  by (simp add: caches_ok_def empty_caches_def)

lemma reachable_caches_ok: "reachable flag ct s \<Longrightarrow> caches_ok flag ct s"
proof (induction rule: reachable.induct)
  case start
  show ?case by (rule caches_ok_empty)
next
  case (after_gradient s f vars)
  then show ?case by (simp add: gradient_caches_ok)
next
  case (after_jacobian s f vars)
  then show ?case by (simp add: jacobian_caches_ok)
next
  case (after_hessian s f vars)
  then show ?case by (simp add: hessian_caches_ok)
next
  case (after_hessian_diag s f vars)
  then show ?case by (simp add: hessian_diag_caches_ok)
qed



text \<open>
  With the empty variable list \<open>hessian\<close> negates the vector \<open>jacobian\<close> falls back
  to. Where the negation returns, the result has one dimension, of length zero, and is not
  zero-by-zero; under the setting \<open>raise\<close> the negation finds no test value on
  \<open>empty_gradient\<close> and the call ends with \<open>ValueError\<close>.
\<close>

theorem hessian_empty_vars_counterexample:
  "fst (hessian Off (\<lambda>v. True) (Apply ''sum'' [TensorVariable ex_x]) (Some []) empty_caches)
     = Inr (NoTestValue (Neg (NoTestValue (Zeros 0 ''float32'')))) \<and>
   static_shape (NoTestValue (Neg (NoTestValue (Zeros 0 ''float32'')))) = Some [0] \<and>
   static_shape (NoTestValue (Neg (NoTestValue (Zeros 0 ''float32'')))) \<noteq> Some [0, 0] \<and>
   fst (hessian Raise (\<lambda>v. True) (Apply ''sum'' [TensorVariable ex_x]) (Some []) empty_caches)
     = Inl ValueError"
  using hessian_result [OF caches_ok_empty, of Off "\<lambda>v. True" "Apply ''sum'' [TensorVariable ex_x]" "Some []"]
        hessian_result [OF caches_ok_empty, of Raise "\<lambda>v. True" "Apply ''sum'' [TensorVariable ex_x]" "Some []"]
  by (simp add: hessian_value_def gradient_body_def jacobian_body_def resolve_vars_def
        empty_gradient_def tt_neg_def op_result_def bind_exn_def)

text \<open>
  C2, as amended: with \<open>vars = []\<close>, under every setting, \<open>gradient\<close>,
  \<open>jacobian\<close> and \<open>hessian_diag\<close> each return \<open>empty_gradient\<close>, the
  \<open>float32\<close> vector of length zero. Under the settings \<open>off\<close>, \<open>ignore\<close> and
  \<open>warn\<close>, \<open>hessian\<close> returns the negation of that vector, again of shape
  \<open>(0,)\<close>.
\<close>

theorem empty_vars_fallback:
  assumes "reachable flag ct s"
  shows "fst (gradient flag ct f (Some []) s) = Inr empty_gradient \<and>
         fst (jacobian flag ct f (Some []) s) = Inr empty_gradient \<and>
         fst (hessian_diag flag ct f (Some []) s) = Inr empty_gradient \<and>
         static_shape empty_gradient = Some [0] \<and>
         static_dtype empty_gradient = Some ''float32'' \<and>
         (flag = Off \<or> flag = Ignore \<or> flag = Warn \<longrightarrow>
            fst (hessian flag ct f (Some []) s) = Inr (NoTestValue (Neg empty_gradient)) \<and>
            static_shape (NoTestValue (Neg empty_gradient)) = Some [0])"
proof -
  have ok: "caches_ok flag ct s"
    using assms by (rule reachable_caches_ok)
  have g: "gradient_body flag ct f (Some []) = Inr empty_gradient"
    by (simp add: gradient_body_def resolve_vars_def)
  have j: "jacobian_body flag ct e (Some []) = Inr empty_gradient" for e
    by (simp add: jacobian_body_def resolve_vars_def)
  have d: "hessian_diag_body flag ct f (Some []) = Inr empty_gradient"
    by (simp add: hessian_diag_body_def resolve_vars_def)
  have v: "hessian_value flag ct f (Some []) = tt_neg flag empty_gradient"
    by (simp add: hessian_value_def g j bind_exn_def)
  have n: "tt_neg flag empty_gradient = Inr (NoTestValue (Neg empty_gradient))"
    if "flag = Off \<or> flag = Ignore \<or> flag = Warn"
    using that by (auto simp: tt_neg_def op_result_def empty_gradient_def)
  have h: "fst (hessian flag ct f (Some []) s) = Inr (NoTestValue (Neg empty_gradient))"
    if "flag = Off \<or> flag = Ignore \<or> flag = Warn"
    using hessian_result [OF ok, of f "Some []"] n [OF that] by (simp add: v)
  show ?thesis
    using gradient_result [OF ok, of f "Some []"]
          jacobian_result [OF ok, of f "Some []"]
          hessian_diag_result [OF ok, of f "Some []"] h
    by (simp add: g j d empty_gradient_def)
qed

theorem empty_vars_fallback_witness:
  "reachable Off (\<lambda>v. True) empty_caches \<and>
   fst (gradient Off (\<lambda>v. True) (TensorVariable ex_x) (Some []) empty_caches)
     = Inr (NoTestValue (Zeros 0 ''float32'')) \<and>
   fst (jacobian Off (\<lambda>v. True) (TensorVariable ex_x) (Some []) empty_caches)
     = Inr (NoTestValue (Zeros 0 ''float32'')) \<and>
   fst (hessian_diag Off (\<lambda>v. True) (TensorVariable ex_x) (Some []) empty_caches)
     = Inr (NoTestValue (Zeros 0 ''float32'')) \<and>
   fst (hessian Off (\<lambda>v. True) (TensorVariable ex_x) (Some []) empty_caches)
     = Inr (NoTestValue (Neg (NoTestValue (Zeros 0 ''float32''))))"
  using empty_vars_fallback [OF reachable.start, of Off "\<lambda>v. True" "TensorVariable ex_x"]
        reachable.start [of Off "\<lambda>v. True"]
  by (simp add: empty_gradient_def)

section \<open>Properties of the generator operation\<close>

lemma perform_pending:
  "gen (generator op) = x # rest \<Longrightarrow>
     GeneratorOp_perform op = (Inr x, op\<lparr>generator := (generator op)\<lparr>gen := rest\<rparr>\<rparr>)"
  by (simp add: GeneratorOp_perform_def DataGenerator_next_def)

lemma perform_exhausted:
  "gen (generator op) = [] \<Longrightarrow> GeneratorOp_perform op = (Inr (op_nan op), op)"
  by (simp add: GeneratorOp_perform_def DataGenerator_next_def)

lemma performs_exhausted:
  "gen (generator op) = [] \<Longrightarrow> performs n op = (replicate n (Inr (op_nan op)), op)"
  by (induction n) (simp_all add: perform_exhausted replicate_append_same)

lemma performs_outputs:
  "fst (performs n op) =
     map Inr (take n (gen (generator op)))
       @ replicate (n - length (gen (generator op))) (Inr (op_nan op))"
proof (induction n arbitrary: op)
  case 0
  show ?case by simp
next
  case (Suc n)
  show ?case
  proof (cases "gen (generator op)")
    case Nil
    then show ?thesis
      using performs_exhausted [of op "Suc n"] by simp
  next
    case (Cons x rest)
    let ?op1 = "op\<lparr>generator := (generator op)\<lparr>gen := rest\<rparr>\<rparr>"
    have "fst (performs (Suc n) op) = Inr x # fst (performs n ?op1)"
      using Cons by (simp add: perform_pending split: prod.splits)
    also have "fst (performs n ?op1) =
        map Inr (take n rest) @ replicate (n - length rest) (Inr (op_nan op))"
      using Suc.IH [of ?op1] by simp
    finally show ?thesis using Cons by simp
  qed
qed

lemma performs_remaining:
  "gen (generator (snd (performs n op))) = drop n (gen (generator op))"
proof (induction n arbitrary: op)
  case 0
  show ?case by simp
next
  case (Suc n)
  show ?case
  proof (cases "gen (generator op)")
    case Nil
    then show ?thesis
      using performs_exhausted [of op "Suc n"] by simp
  next
    case (Cons x rest)
    let ?op1 = "op\<lparr>generator := (generator op)\<lparr>gen := rest\<rparr>\<rparr>"
    have "snd (performs (Suc n) op) = snd (performs n ?op1)"
      using Cons by (simp add: perform_pending split: prod.splits)
    then show ?thesis
      using Suc.IH [of ?op1] Cons by simp
  qed
qed

text \<open>
  A bridge as the constructor makes it: \<open>n\<close> evaluations in a row never raise; they
  yield the elements of the source in order and, once these are used up, the sentinel
  every time. The sentinel has the shape of the sample value the constructor saw.
\<close>

lemma constructed_bridge_stream:
  assumes "GeneratorOp_init mk a = Inr op"
  shows "fst (performs n op) =
           map Inr (take n (gen (generator op)))
             @ replicate (n - length (gen (generator op))) (Inr (op_nan op)) \<and>
         gen (generator (snd (performs n op))) = drop n (gen (generator op)) \<and>
         shape (op_nan op) = shape (test_value (generator op))"
proof -
  from assms obtain g nan where "as_data_generator mk a = Inr g"
    and nan: "np_fill_nan (np_zeros_like (test_value g)) = Inr nan"
    and op: "op = \<lparr>generator = g, itypes = [], otypes = [tensortype g], op_nan = nan\<rparr>"
    by (auto simp: GeneratorOp_init_def split: sum.splits)
  from nan have "shape nan = shape (test_value g)"
    by (auto simp: np_fill_nan_def np_zeros_like_def split: if_splits)
  then have "shape (op_nan op) = shape (test_value (generator op))"
    by (simp add: op)
  then show ?thesis
    using performs_outputs [of n op] performs_remaining [of n op] by simp
qed

text \<open>
  C5, at a bridge that was rebound: the bridge is made over the two arrays \<open>arr_a\<close>
  and \<open>arr_b\<close> of shape \<open>(2,)\<close>, and \<open>set_gen\<close> then gives it a source of the same
  tensor type whose one element, and sample, \<open>arr_c\<close> has shape \<open>(3,)\<close>.
  \<open>set_gen\<close> does not build the sentinel anew: the evaluations after the element yield
  the array of shape \<open>(2,)\<close> the constructor made, not one of the shape of the sample.
\<close>

theorem rebound_bridge_keeps_old_sentinel:
  "GeneratorOp_init sample_first (Plain [arr_a, arr_b]) = Inr ex_op \<and>
   GeneratorOp_set_gen sample_first (Plain [arr_c]) ex_op
     = (Inr (), ex_op\<lparr>generator := \<lparr>gen = [arr_c], test_value = arr_c,
                                       tensortype = TensorType ''float64'' [False]\<rparr>\<rparr>) \<and>
   fst (performs 3 (ex_op\<lparr>generator := \<lparr>gen = [arr_c], test_value = arr_c,
                                       tensortype = TensorType ''float64'' [False]\<rparr>\<rparr>))
     = [Inr arr_c, Inr arr_nan, Inr arr_nan] \<and>
   shape arr_nan = [2] \<and>
   shape (test_value (generator
     (ex_op\<lparr>generator := \<lparr>gen = [arr_c], test_value = arr_c,
                              tensortype = TensorType ''float64'' [False]\<rparr>\<rparr>))) = [3]"
proof -
  have i: "GeneratorOp_init sample_first (Plain [arr_a, arr_b]) = Inr ex_op"
    by (simp add: GeneratorOp_init_def as_data_generator_def sample_first_def arr_a_def
          ex_op_def arr_nan_def np_fill_nan_def nan_dtypes_def np_zeros_like_def)
  have r: "GeneratorOp_set_gen sample_first (Plain [arr_c]) ex_op
     = (Inr (), ex_op\<lparr>generator := \<lparr>gen = [arr_c], test_value = arr_c,
                                       tensortype = TensorType ''float64'' [False]\<rparr>\<rparr>)"
    by (simp add: GeneratorOp_set_gen_def as_data_generator_def sample_first_def arr_c_def
          ex_op_def)
  have p: "fst (performs 3 (ex_op\<lparr>generator := \<lparr>gen = [arr_c], test_value = arr_c,
                                       tensortype = TensorType ''float64'' [False]\<rparr>\<rparr>))
     = [Inr arr_c, Inr arr_nan, Inr arr_nan]"
    unfolding performs_outputs by (simp add: ex_op_def numeral_eq_Suc)
  show ?thesis
    using i r p by (simp add: arr_nan_def arr_c_def)
qed

text \<open>
  C6: \<open>set_gen\<close> with a source whose tensor type differs from the current one's ends
  with \<open>ValueError\<close> and leaves the operation as it was; with an equal tensor type it
  replaces the generator.
\<close>

theorem rebind_checks_type:
  assumes "as_data_generator mk a = Inr g"
  shows "(tensortype g \<noteq> tensortype (generator op) \<longrightarrow>
            GeneratorOp_set_gen mk a op = (Inl ValueError, op)) \<and>
         (tensortype g = tensortype (generator op) \<longrightarrow>
            GeneratorOp_set_gen mk a op = (Inr (), op\<lparr>generator := g\<rparr>))"
  using assms by (simp add: GeneratorOp_set_gen_def)


theorem rebind_checks_type_witness:
  "GeneratorOp_set_gen sample_first (Plain [arr_m]) ex_op = (Inl ValueError, ex_op) \<and>
   GeneratorOp_set_gen sample_first (Plain [arr_b]) ex_op
     = (Inr (), ex_op\<lparr>generator := \<lparr>gen = [arr_b], test_value = arr_b,
                                       tensortype = TensorType ''float64'' [False]\<rparr>\<rparr>)"
proof -
  have m: "as_data_generator sample_first (Plain [arr_m])
             = Inr \<lparr>gen = [arr_m], test_value = arr_m,
                    tensortype = TensorType ''float64'' [False, False]\<rparr>"
    by (simp add: as_data_generator_def sample_first_def arr_m_def)
  have b: "as_data_generator sample_first (Plain [arr_b])
             = Inr \<lparr>gen = [arr_b], test_value = arr_b,
                    tensortype = TensorType ''float64'' [False]\<rparr>"
    by (simp add: as_data_generator_def sample_first_def arr_b_def)
  show ?thesis
    using rebind_checks_type [OF m, of ex_op] rebind_checks_type [OF b, of ex_op]
    by (simp add: ex_op_def)
qed

text \<open>
  A source whose sample has an integer dtype: the sentinel cannot be filled, and the
  constructor raises \<open>ValueError\<close>, for the plain iterator and the \<open>DataGenerator\<close>
  alike.
\<close>

lemma constructor_raises_for_integer_sample:
  "GeneratorOp_init sample_first (Plain [arr_a\<lparr>np_dtype := ''int64''\<rparr>]) = Inl ValueError \<and>
   GeneratorOp_init sample_first
     (Wrapped \<lparr>gen = [arr_a\<lparr>np_dtype := ''int64''\<rparr>], test_value = arr_a\<lparr>np_dtype := ''int64''\<rparr>,
               tensortype = TensorType ''int64'' [False]\<rparr>) = Inl ValueError"
  by (simp add: GeneratorOp_init_def as_data_generator_def sample_first_def arr_a_def
        np_fill_nan_def nan_dtypes_def np_zeros_like_def)

text \<open>
  C10: an argument that is not a \<open>DataGenerator\<close> is wrapped in one, by the
  constructor and by \<open>set_gen\<close> alike: both behave on the plain iterator as on the
  \<open>DataGenerator\<close> made from it, the operation the constructor returns holds that
  generator, and the type check of \<open>set_gen\<close> compares its tensor type with the
  current one's.
\<close>

theorem plain_iterator_is_wrapped:
  assumes "mk it = Inr g"
  shows "GeneratorOp_init mk (Plain it) = GeneratorOp_init mk (Wrapped g) \<and>
         (\<forall>op1. GeneratorOp_init mk (Plain it) = Inr op1 \<longrightarrow> generator op1 = g) \<and>
         GeneratorOp_set_gen mk (Plain it) op = GeneratorOp_set_gen mk (Wrapped g) op \<and>
         GeneratorOp_set_gen mk (Plain it) op =
           (if tensortype g = tensortype (generator op)
            then (Inr (), op\<lparr>generator := g\<rparr>) else (Inl ValueError, op))"
  using assms
  by (auto simp: GeneratorOp_init_def GeneratorOp_set_gen_def as_data_generator_def
        split: sum.splits)

theorem plain_iterator_is_wrapped_witness:
  "sample_first [arr_b] = Inr \<lparr>gen = [arr_b], test_value = arr_b,
                               tensortype = TensorType ''float64'' [False]\<rparr> \<and>
   GeneratorOp_init sample_first (Plain [arr_b])
     = Inr \<lparr>generator = \<lparr>gen = [arr_b], test_value = arr_b,
                          tensortype = TensorType ''float64'' [False]\<rparr>,
            itypes = [], otypes = [TensorType ''float64'' [False]], op_nan = arr_nan\<rparr> \<and>
   GeneratorOp_init sample_first (Plain [arr_b])
     = GeneratorOp_init sample_first
         (Wrapped \<lparr>gen = [arr_b], test_value = arr_b, tensortype = TensorType ''float64'' [False]\<rparr>) \<and>
   GeneratorOp_set_gen sample_first (Plain [arr_b]) ex_op
     = (Inr (), ex_op\<lparr>generator := \<lparr>gen = [arr_b], test_value = arr_b,
                                       tensortype = TensorType ''float64'' [False]\<rparr>\<rparr>)"
proof -
  have w: "sample_first [arr_b] = Inr \<lparr>gen = [arr_b], test_value = arr_b,
                               tensortype = TensorType ''float64'' [False]\<rparr>"
    by (simp add: sample_first_def arr_b_def)
  have i: "GeneratorOp_init sample_first
         (Wrapped \<lparr>gen = [arr_b], test_value = arr_b, tensortype = TensorType ''float64'' [False]\<rparr>)
     = Inr \<lparr>generator = \<lparr>gen = [arr_b], test_value = arr_b,
                          tensortype = TensorType ''float64'' [False]\<rparr>,
            itypes = [], otypes = [TensorType ''float64'' [False]], op_nan = arr_nan\<rparr>"
    by (simp add: GeneratorOp_init_def as_data_generator_def arr_b_def arr_nan_def
          np_fill_nan_def nan_dtypes_def np_zeros_like_def)
  show ?thesis
    using w i plain_iterator_is_wrapped [where mk = sample_first and it = "[arr_b]" and op = ex_op, OF w]
    by (simp add: ex_op_def GeneratorOp_set_gen_def as_data_generator_def)
qed

text \<open>
  C7: building the node never asks the source for an element. Whatever
  \<open>compute_test_value\<close> is set to around the call, the call returns the node with the
  generator's sample as its test value, and leaves the setting and the operation, so also
  the elements its source has still to yield, as they were.
\<close>

theorem graph_construction_leaves_source:
  "GeneratorOp_call flag op =
     (Inr \<lparr>out_types = otypes op, out_test_value = Some (test_value (generator op))\<rparr>, flag, op)"
  by (simp add: GeneratorOp_call_def Op_call_def)

text \<open>
  What the decorator prevents: under a setting other than \<open>off\<close>, building the node
  evaluates the operation and takes an element from the source.
\<close>

lemma Op_call_advances:
  "flag \<noteq> Off \<Longrightarrow> gen (generator op) = x # rest \<Longrightarrow>
     gen (generator (snd (Op_call flag op))) = rest"
  by (simp add: Op_call_def GeneratorOp_perform_def DataGenerator_next_def)

section \<open>Properties of the shared replacements\<close>

lemma shared_for_eq:
  "shared_for vs st =
     (map (\<lambda>(i, v). (v, \<lparr>sid = i, svalue = tag_test_value v, sname = name v @ ''_shared''\<rparr>))
        (enumerate st vs),
      st + length vs)"
  by (induction vs arbitrary: st) (simp_all add: theano_shared_def)

lemma shared_for_keys: "map fst (fst (shared_for vs st)) = vs"
  by (induction vs arbitrary: st) (simp_all add: theano_shared_def split_def Let_def)

lemma shared_for_sids: "map (sid \<circ> snd) (fst (shared_for vs st)) = [st..<st + length vs]"
  by (induction vs arbitrary: st) (simp_all add: theano_shared_def split_def Let_def upt_rec)

lemma shared_for_seeded:
  "(v, s) \<in> set (fst (shared_for vs st)) \<Longrightarrow>
     svalue s = tag_test_value v \<and> sname s = name v @ ''_shared''"
  by (auto simp: shared_for_eq)

lemma shared_for_state: "snd (shared_for vs st) = st + length vs"
  by (simp add: shared_for_eq)

text \<open>
  C9: the keys of the result are the model's variables that are not in \<open>vars\<close>, each
  once; every placeholder holds the test value of its variable and is named after it; the
  placeholders of one call are pairwise different objects, and a later call with the same
  arguments makes placeholders none of which is one of the earlier call's.
\<close>

theorem shared_replacements_fresh:
  assumes "make_shared_replacements vars m st = (r, st1)"
  shows "fst ` set r = set (model_vars m) - set vars \<and>
         distinct (map fst r) \<and>
         (\<forall>(v, s) \<in> set r. svalue s = tag_test_value v \<and> sname s = name v @ ''_shared'') \<and>
         distinct (map (sid \<circ> snd) r) \<and>
         (\<forall>st2 r2 st3. st1 \<le> st2 \<longrightarrow> make_shared_replacements vars m st2 = (r2, st3) \<longrightarrow>
            (sid \<circ> snd) ` set r \<inter> (sid \<circ> snd) ` set r2 = {})"
proof -
  let ?others = "filter (\<lambda>v. v \<notin> set vars) (remdups (model_vars m))"
  from assms have r: "r = fst (shared_for ?others st)" and st1: "st1 = snd (shared_for ?others st)"
    by (simp_all add: make_shared_replacements_def)
  have keys: "map fst r = ?others"
    by (simp add: r shared_for_keys)
  have sids: "map (sid \<circ> snd) r = [st..<st + length ?others]"
    by (simp add: r shared_for_sids)
  have "set (map fst r) = set (model_vars m) - set vars"
    unfolding keys by auto
  then have k: "fst ` set r = set (model_vars m) - set vars"
    by simp
  have d: "distinct (map fst r)"
    unfolding keys by simp
  have s: "\<forall>(v, s) \<in> set r. svalue s = tag_test_value v \<and> sname s = name v @ ''_shared''"
    using shared_for_seeded [of _ _ ?others st] by (auto simp: r)
  have ds: "distinct (map (sid \<circ> snd) r)"
    unfolding sids by simp
  have range: "(sid \<circ> snd) ` set r = {st..<st1}"
    using sids by (metis set_map set_upt st1 shared_for_state)
  have f: "(sid \<circ> snd) ` set r \<inter> (sid \<circ> snd) ` set r2 = {}"
    if "st1 \<le> st2" and "make_shared_replacements vars m st2 = (r2, st3)" for st2 r2 st3
  proof -
    from that(2) have "r2 = fst (shared_for ?others st2)"
      by (simp add: make_shared_replacements_def)
    then have "map (sid \<circ> snd) r2 = [st2..<st2 + length ?others]"
      by (simp only: shared_for_sids)
    then have "(sid \<circ> snd) ` set r2 = {st2..<st2 + length ?others}"
      by (metis set_map set_upt)
    with range that(1) show ?thesis by auto
  qed
  from k d s ds f show ?thesis by blast
qed

theorem shared_replacements_fresh_witness:
  "make_shared_replacements [ex_x] \<lparr>model_vars = [ex_x, ex_y]\<rparr> 5
     = ([(ex_y, \<lparr>sid = 5, svalue = tag_test_value ex_y, sname = ''y_shared''\<rparr>)], 6) \<and>
   make_shared_replacements [ex_x] \<lparr>model_vars = [ex_x, ex_y]\<rparr> 6
     = ([(ex_y, \<lparr>sid = 6, svalue = tag_test_value ex_y, sname = ''y_shared''\<rparr>)], 7) \<and>
   fst ` set [(ex_y, \<lparr>sid = 5, svalue = tag_test_value ex_y, sname = ''y_shared''\<rparr>)]
     = set [ex_x, ex_y] - set [ex_x] \<and>
   (sid \<circ> snd) ` set [(ex_y, \<lparr>sid = 5, svalue = tag_test_value ex_y, sname = ''y_shared''\<rparr>)]
     \<inter> (sid \<circ> snd) ` set [(ex_y, \<lparr>sid = 6, svalue = tag_test_value ex_y, sname = ''y_shared''\<rparr>)]
     = {}"
proof -
  have a: "make_shared_replacements [ex_x] \<lparr>model_vars = [ex_x, ex_y]\<rparr> 5
     = ([(ex_y, \<lparr>sid = 5, svalue = tag_test_value ex_y, sname = ''y_shared''\<rparr>)], 6)"
    by (simp add: make_shared_replacements_def theano_shared_def ex_x_def ex_y_def)
  have b: "make_shared_replacements [ex_x] \<lparr>model_vars = [ex_x, ex_y]\<rparr> 6
     = ([(ex_y, \<lparr>sid = 6, svalue = tag_test_value ex_y, sname = ''y_shared''\<rparr>)], 7)"
    by (simp add: make_shared_replacements_def theano_shared_def ex_x_def ex_y_def)
  from shared_replacements_fresh [OF a] b
  have "fst ` set [(ex_y, \<lparr>sid = 5, svalue = tag_test_value ex_y, sname = ''y_shared''\<rparr>)]
          = set (model_vars \<lparr>model_vars = [ex_x, ex_y]\<rparr>) - set [ex_x]"
    and "(sid \<circ> snd) ` set [(ex_y, \<lparr>sid = 5, svalue = tag_test_value ex_y, sname = ''y_shared''\<rparr>)]
     \<inter> (sid \<circ> snd) ` set [(ex_y, \<lparr>sid = 6, svalue = tag_test_value ex_y, sname = ''y_shared''\<rparr>)]
     = {}"
    by blast+
  with a b show ?thesis by simp
qed

section \<open>Properties of the joined inputs\<close>

lemma foldl_update: "foldl (\<lambda>d (k, v). d(k \<mapsto> v)) m items = m ++ map_of (rev items)"
  by (induction items arbitrary: m) (auto simp: map_add_upd_left)

lemma dict_of_map_of: "dict_of items = map_of (rev items)"
  by (simp add: dict_of_def foldl_update)

lemma dict_of_distinct: "distinct (map fst items) \<Longrightarrow> (k, v) \<in> set items \<Longrightarrow> dict_of items k = Some v"
  by (simp add: dict_of_map_of distinct_rev rev_map [symmetric])

lemma dict_of_None: "dict_of items k = None \<longleftrightarrow> k \<notin> fst ` set items"
  by (simp add: dict_of_map_of map_of_eq_None_iff)

lemma vmap_from_length: "length (vmap_from start vars) = length vars"
  by (induction vars arbitrary: start) simp_all

lemma vmap_from_names: "map fst (vmap_from start vars) = map name vars"
  by (induction vars arbitrary: start) simp_all

lemma vmap_from_nth:
  "i < length vars \<Longrightarrow>
     vmap_from start vars ! i =
       (name (vars ! i),
        (start + sum_list (map dsize (take i vars)),
         start + sum_list (map dsize (take i vars)) + dsize (vars ! i)),
        dshape (vars ! i), dtype (vars ! i))"
proof (induction vars arbitrary: start i)
  case Nil
  then show ?case by simp
next
  case (Cons v vs)
  show ?case
  proof (cases i)
    case 0
    then show ?thesis by simp
  next
    case (Suc j)
    with Cons.prems have "j < length vs" by simp
    from Cons.IH [OF this, of "start + dsize v"] Suc show ?thesis
      by (simp add: add.assoc)
  qed
qed

lemma replace_items_total:
  assumes "\<forall>nm \<in> fst ` set vm. get_var nm \<noteq> None"
  shows "replace_items get_var inarray vm =
           Inr (map (\<lambda>(nm, slc, shp, dtyp).
                  (the (get_var nm),
                   Astype (reshape_t (Subtensor inarray (fst slc) (snd slc)) shp) dtyp)) vm)"
  using assms
proof (induction vm)
  case Nil
  show ?case by simp
next
  case (Cons e vm)
  obtain nm slc shp dtyp where e: "e = (nm, slc, shp, dtyp)"
    by (cases e)
  from Cons.prems e obtain key where key: "get_var nm = Some key"
    by auto
  from Cons.prems have "\<forall>nm \<in> fst ` set vm. get_var nm \<noteq> None"
    by simp
  from Cons.IH [OF this] e key show ?case by simp
qed

lemma get_var_defined:
  "nm \<in> set (map name vars) \<Longrightarrow> dict_of (map (\<lambda>var. (name var, var)) vars) nm \<noteq> None"
  by (simp add: dict_of_None image_image)

lemma get_var_distinct:
  "distinct (map name vars) \<Longrightarrow> v \<in> set vars \<Longrightarrow>
     dict_of (map (\<lambda>var. (name var, var)) vars) (name v) = Some v"
  by (rule dict_of_distinct) (auto simp: o_def)


lemma replace_items_built:
  "replace_items (dict_of (map (\<lambda>var. (name var, var)) vars)) inarray (ArrayOrdering vars) =
     Inr (map (\<lambda>(nm, slc, shp, dtyp).
            (the (dict_of (map (\<lambda>var. (name var, var)) vars) nm),
             Astype (reshape_t (Subtensor inarray (fst slc) (snd slc)) shp) dtyp))
          (ArrayOrdering vars))"
proof (rule replace_items_total)
  show "\<forall>nm \<in> fst ` set (ArrayOrdering vars).
          dict_of (map (\<lambda>var. (name var, var)) vars) nm \<noteq> None"
    using get_var_defined [of _ vars] vmap_from_names [of 0 vars]
    by (metis ArrayOrdering_def set_map)
qed

lemma replace_items_nth:
  "\<exists>items.
     replace_items (dict_of (map (\<lambda>var. (name var, var)) vars)) inarray (ArrayOrdering vars)
       = Inr items \<and>
     length items = length vars \<and>
     (\<forall>j < length vars.
        items ! j =
          (the (dict_of (map (\<lambda>var. (name var, var)) vars) (name (vars ! j))),
           Astype
             (reshape_t
                (Subtensor inarray (sum_list (map dsize (take j vars)))
                   (sum_list (map dsize (take j vars)) + dsize (vars ! j)))
                (dshape (vars ! j)))
             (dtype (vars ! j))))"
proof -
  define get_var where "get_var = dict_of (map (\<lambda>var. (name var, var)) vars)"
  define F where "F = (\<lambda>(nm, slc, shp, dtyp).
              (the (get_var nm),
               Astype (reshape_t (Subtensor inarray (fst slc) (snd slc)) shp) dtyp))"
  define items where "items = map F (ArrayOrdering vars)"
  have built: "replace_items get_var inarray (ArrayOrdering vars) = Inr items"
    unfolding items_def F_def get_var_def by (rule replace_items_built)
  have len: "length items = length vars"
    by (simp add: items_def ArrayOrdering_def vmap_from_length)
  have item: "items ! j =
      (the (get_var (name (vars ! j))),
       Astype (reshape_t (Subtensor inarray (sum_list (map dsize (take j vars)))
                  (sum_list (map dsize (take j vars)) + dsize (vars ! j)))
                 (dshape (vars ! j))) (dtype (vars ! j)))"
    if "j < length vars" for j
    using that vmap_from_nth [OF that, of 0]
    by (simp add: items_def F_def ArrayOrdering_def vmap_from_length)
  from built len item show ?thesis
    unfolding get_var_def by blast
qed

lemma join_replace_distinct:
  assumes names: "distinct (map name vars)"
  shows "\<exists>replace.
           join_replace inarray vars shared = Inr replace \<and>
           (\<forall>i < length vars. shared (vars ! i) = None \<longrightarrow>
              replace (vars ! i) =
                Some (Astype
                  (reshape_t
                     (Subtensor inarray (sum_list (map dsize (take i vars)))
                        (sum_list (map dsize (take i vars)) + dsize (vars ! i)))
                     (dshape (vars ! i)))
                  (dtype (vars ! i))))"
proof -
  define get_var where "get_var = dict_of (map (\<lambda>var. (name var, var)) vars)"
  define R where "R = (\<lambda>i. Astype
      (reshape_t
         (Subtensor inarray (sum_list (map dsize (take i vars)))
            (sum_list (map dsize (take i vars)) + dsize (vars ! i)))
         (dshape (vars ! i)))
      (dtype (vars ! i)))"
  from replace_items_nth [of vars inarray]
  obtain items where built: "replace_items get_var inarray (ArrayOrdering vars) = Inr items"
    and len: "length items = length vars"
    and item: "\<And>j. j < length vars \<Longrightarrow> items ! j = (the (get_var (name (vars ! j))), R j)"
    unfolding get_var_def R_def by blast
  have key: "the (get_var (name (vars ! j))) = vars ! j" if "j < length vars" for j
    using get_var_distinct [OF names, of "vars ! j"] that by (simp add: get_var_def)
  have keys: "map fst items = vars"
  proof (rule nth_equalityI)
    show "length (map fst items) = length vars"
      using len by simp
  next
    fix j
    assume "j < length (map fst items)"
    then have j: "j < length vars"
      using len by simp
    then show "map fst items ! j = vars ! j"
      using item [OF j] key [OF j] len by simp
  qed
  have "distinct vars"
    using names by (simp add: distinct_map)
  then have d: "distinct (map fst items)"
    by (simp only: keys)
  have "(dict_of items ++ shared) (vars ! i) = Some (R i)"
    if i: "i < length vars" and free: "shared (vars ! i) = None" for i
  proof -
    have "items ! i \<in> set items"
      by (rule nth_mem) (simp add: len i)
    then have m: "(vars ! i, R i) \<in> set items"
      using item [OF i] key [OF i] by simp
    from d m have "dict_of items (vars ! i) = Some (R i)"
      by (rule dict_of_distinct)
    then show ?thesis
      using free by (simp add: map_add_def)
  qed
  moreover have "join_replace inarray vars shared = Inr (dict_of items ++ shared)"
    using built by (simp add: join_replace_def get_var_def)
  ultimately show ?thesis
    unfolding R_def by simp
qed

text \<open>
  C4: the replacement built for the \<open>i\<close>-th variable of \<open>vars\<close> is its slice of
  the flat input (the slice starts where the element counts of the variables before it
  end, and has the variable's element count), reshaped to the variable's shape and cast to
  its dtype; when the shape is \<open>()\<close> the element \<open>[0]\<close> of the slice is taken and no
  reshape is made. When the names in \<open>vars\<close> are pairwise distinct and the variable is
  no key of \<open>shared\<close>, this replacement is what \<open>replace\<close> maps the variable to.
\<close>

theorem replacement_is_reshaped_cast_slice:
  assumes "i < length vars"
  shows "(\<exists>items.
            replace_items (dict_of (map (\<lambda>var. (name var, var)) vars)) inarray (ArrayOrdering vars)
              = Inr items \<and>
            length items = length vars \<and>
            snd (items ! i) =
              Astype
                (if dshape (vars ! i) \<noteq> []
                 then Reshape
                        (Subtensor inarray (sum_list (map dsize (take i vars)))
                           (sum_list (map dsize (take i vars)) + dsize (vars ! i)))
                        (dshape (vars ! i))
                 else Index0
                        (Subtensor inarray (sum_list (map dsize (take i vars)))
                           (sum_list (map dsize (take i vars)) + dsize (vars ! i))))
                (dtype (vars ! i))) \<and>
         (distinct (map name vars) \<longrightarrow> shared (vars ! i) = None \<longrightarrow>
            (\<exists>replace.
               join_replace inarray vars shared = Inr replace \<and>
               replace (vars ! i) =
                 Some (Astype
                   (if dshape (vars ! i) \<noteq> []
                    then Reshape
                           (Subtensor inarray (sum_list (map dsize (take i vars)))
                              (sum_list (map dsize (take i vars)) + dsize (vars ! i)))
                           (dshape (vars ! i))
                    else Index0
                           (Subtensor inarray (sum_list (map dsize (take i vars)))
                              (sum_list (map dsize (take i vars)) + dsize (vars ! i))))
                   (dtype (vars ! i)))))"
proof -
  define R where "R = Astype
      (reshape_t
         (Subtensor inarray (sum_list (map dsize (take i vars)))
            (sum_list (map dsize (take i vars)) + dsize (vars ! i)))
         (dshape (vars ! i)))
      (dtype (vars ! i))"
  from replace_items_nth [of vars inarray] assms
  have first: "\<exists>items.
      replace_items (dict_of (map (\<lambda>var. (name var, var)) vars)) inarray (ArrayOrdering vars)
        = Inr items \<and>
      length items = length vars \<and> snd (items ! i) = R"
    unfolding R_def by force
  have second: "\<exists>replace. join_replace inarray vars shared = Inr replace \<and>
      replace (vars ! i) = Some R"
    if "distinct (map name vars)" and "shared (vars ! i) = None"
    using join_replace_distinct [OF that(1), of inarray shared] assms that(2)
    unfolding R_def by blast
  from first second show ?thesis
    unfolding R_def reshape_t_def by simp
qed

theorem replacement_is_reshaped_cast_slice_witness:
  "(1::nat) < length [ex_x, ex_y] \<and> distinct (map name [ex_x, ex_y]) \<and>
   (\<exists>replace. join_replace ex_inarray [ex_x, ex_y] Map.empty = Inr replace \<and>
      replace ex_x = Some (Astype (Reshape (Subtensor ex_inarray 0 2) [2]) ''float64'') \<and>
      replace ex_y = Some (Astype (Index0 (Subtensor ex_inarray 2 3)) ''float32''))"
proof -
  have d: "distinct (map name [ex_x, ex_y])"
    by (simp add: ex_x_def ex_y_def)
  have s0: "dsize ex_x = 2" and s1: "dsize ex_y = 1"
    by (simp_all add: dsize_def ex_x_def ex_y_def)
  have h0: "dshape ex_x = [2]" "dtype ex_x = ''float64''" "dshape ex_y = []" "dtype ex_y = ''float32''"
    by (simp_all add: ex_x_def ex_y_def)
  from replacement_is_reshaped_cast_slice [of 0 "[ex_x, ex_y]" ex_inarray Map.empty] d
  obtain r0 where r0: "join_replace ex_inarray [ex_x, ex_y] Map.empty = Inr r0"
    and x: "r0 ex_x = Some (Astype (Reshape (Subtensor ex_inarray 0 2) [2]) ''float64'')"
    by (auto simp: s0 h0)
  from replacement_is_reshaped_cast_slice [of 1 "[ex_x, ex_y]" ex_inarray Map.empty] d
  obtain r1 where r1: "join_replace ex_inarray [ex_x, ex_y] Map.empty = Inr r1"
    and y: "r1 ex_y = Some (Astype (Index0 (Subtensor ex_inarray 2 3)) ''float32'')"
    by (auto simp: s0 s1 h0)
  from r0 r1 have "r0 = r1" by simp
  with r0 x y d show ?thesis by simp
qed

text \<open>
  C3, at two different nodes that are both named \<open>x\<close>: \<open>get_var\<close> is keyed by
  name and keeps the later node only, so \<open>replace\<close> has an entry for the later node,
  built from the later slice, and none for the earlier one. In the rewritten expression
  the earlier variable is still an input: the two do not each receive a slice of their own.
\<close>

theorem join_name_collision:
  "join_nonshared_inputs (\<lambda>ds. ''float64'') (\<lambda>d x. x)
       [Apply ''add'' [TensorVariable ex_x, TensorVariable ex_x2]] [ex_x, ex_x2] Map.empty False 10
     = (Inr ([Apply ''add''
                [TensorVariable ex_x, Astype (Index0 (Subtensor ex_inarray 2 3)) ''float32'']],
             ex_inarray), 11) \<and>
   ex_x \<noteq> ex_x2 \<and> name ex_x = name ex_x2 \<and>
   (case join_replace ex_inarray [ex_x, ex_x2] Map.empty of
      Inl e \<Rightarrow> False
    | Inr replace \<Rightarrow>
        replace ex_x = None \<and>
        replace ex_x2 = Some (Astype (Index0 (Subtensor ex_inarray 2 3)) ''float32''))"
  by (simp add: join_nonshared_inputs_def join_replace_def ArrayOrdering_def dict_of_def
        reshape_t_def dsize_def joined_test_value_def ex_x_def ex_x2_def ex_inarray_def Let_def
        theano_shared_def)

section \<open>Properties of the callable tensor\<close>

lemma set_first_seen: "set (first_seen seen xs) = set xs - set seen"
  by (induction seen xs rule: first_seen.induct) auto

lemma set_map_filter_eq: "set (List.map_filter f xs) = {y. \<exists>x \<in> set xs. f x = Some y}"
  by (induction xs) (auto simp: map_filter_simps split: option.splits)

lemma set_inputvars:
  "set (inputvars (Inl t)) = {v. TensorVariable v \<in> set (leaves t)}"
proof -
  have "as_tensor_variable l = Some v \<longleftrightarrow> l = TensorVariable v" for l v
    by (cases l) auto
  then show ?thesis
    by (auto simp: inputvars_def inputs_def set_first_seen set_map_filter_eq)
qed

lemma leaves_clone:
  "set (leaves (clone r t)) =
     (\<Union>l \<in> set (leaves t).
        case l of
          TensorVariable v \<Rightarrow> (case r v of Some e \<Rightarrow> set (leaves e) | None \<Rightarrow> {l})
        | _ \<Rightarrow> {l})"
  by (induction t) (auto split: option.splits)

lemma leaves_are_leaves:
  "l \<in> set (leaves t) \<Longrightarrow>
     (\<exists>v. l = TensorVariable v) \<or> (\<exists>s. l = SharedVariable s) \<or> (\<exists>c. l = TensorConstant c) \<or> l = LoopVar"
  by (induction t) auto

lemma clone_single_inputs:
  assumes "inputvars (Inl t) = [old]"
  shows "set (inputvars (Inl (clone [old \<mapsto> e] t))) = set (inputvars (Inl e))"
proof -
  from assms have only: "{v. TensorVariable v \<in> set (leaves t)} = {old}"
    using set_inputvars [of t] by simp
  show ?thesis
  proof (rule set_eqI)
    fix v
    have "v \<in> set (inputvars (Inl (clone [old \<mapsto> e] t))) \<longleftrightarrow>
            TensorVariable v \<in> set (leaves (clone [old \<mapsto> e] t))"
      by (simp add: set_inputvars)
    also have "\<dots> \<longleftrightarrow> TensorVariable v \<in> set (leaves e)"
    proof
      assume "TensorVariable v \<in> set (leaves (clone [old \<mapsto> e] t))"
      then obtain l where l: "l \<in> set (leaves t)"
        and in_l: "TensorVariable v \<in>
          (case l of
             TensorVariable w \<Rightarrow> (case [old \<mapsto> e] w of Some e' \<Rightarrow> set (leaves e') | None \<Rightarrow> {l})
           | _ \<Rightarrow> {l})"
        unfolding leaves_clone by blast
      show "TensorVariable v \<in> set (leaves e)"
      proof (cases l)
        case (TensorVariable w)
        with l only have "w = old" by auto
        with in_l TensorVariable show ?thesis by simp
      qed (use in_l in auto)
    next
      assume v: "TensorVariable v \<in> set (leaves e)"
      from only have "TensorVariable old \<in> set (leaves t)" by auto
      with v show "TensorVariable v \<in> set (leaves (clone [old \<mapsto> e] t))"
        unfolding leaves_clone by force
    qed
    also have "\<dots> \<longleftrightarrow> v \<in> set (inputvars (Inl e))"
      by (simp add: set_inputvars)
    finally show "v \<in> set (inputvars (Inl (clone [old \<mapsto> e] t))) \<longleftrightarrow> v \<in> set (inputvars (Inl e))" .
  qed
qed

text \<open>
  C8: calling a callable tensor succeeds exactly when the wrapped expression has exactly
  one input variable. Then the result is the expression with that variable replaced by
  the given value, and the input variables of the result are those of the given value.
  With no input variable, or with more than one, the call ends with \<open>ValueError\<close>.
\<close>

theorem callable_tensor_one_input:
  "(length (inputvars (Inl tensor)) = 1 \<longrightarrow>
      (\<exists>oldinput. inputvars (Inl tensor) = [oldinput] \<and>
         CallableTensor_call tensor input = Inr (clone [oldinput \<mapsto> input] tensor) \<and>
         set (inputvars (Inl (clone [oldinput \<mapsto> input] tensor))) = set (inputvars (Inl input)))) \<and>
   (length (inputvars (Inl tensor)) \<noteq> 1 \<longrightarrow> CallableTensor_call tensor input = Inl ValueError)"
proof (cases "inputvars (Inl tensor)")
  case Nil
  then show ?thesis by (simp add: CallableTensor_call_def)
next
  case (Cons v vs)
  show ?thesis
  proof (cases vs)
    case Nil
    with Cons have one: "inputvars (Inl tensor) = [v]" by simp
    from clone_single_inputs [OF one, of input] one show ?thesis
      by (simp add: CallableTensor_call_def)
  next
    case (Cons w ws)
    with \<open>inputvars (Inl tensor) = v # vs\<close> show ?thesis
      by (simp add: CallableTensor_call_def)
  qed
qed

theorem callable_tensor_one_input_witness:
  "length (inputvars (Inl (Apply ''add'' [TensorVariable ex_x, TensorVariable ex_x]))) = 1 \<and>
   CallableTensor_call (Apply ''add'' [TensorVariable ex_x, TensorVariable ex_x]) (Zeros 2 ''float64'')
     = Inr (Apply ''add'' [Zeros 2 ''float64'', Zeros 2 ''float64'']) \<and>
   length (inputvars (Inl (Apply ''add'' [TensorVariable ex_x, TensorVariable ex_y]))) \<noteq> 1 \<and>
   CallableTensor_call (Apply ''add'' [TensorVariable ex_x, TensorVariable ex_y]) (Zeros 2 ''float64'')
     = Inl ValueError \<and>
   length (inputvars (Inl (Zeros 2 ''float64''))) \<noteq> 1 \<and>
   CallableTensor_call (Zeros 2 ''float64'') (TensorVariable ex_x) = Inl ValueError"
proof -
  have one: "inputvars (Inl (Apply ''add'' [TensorVariable ex_x, TensorVariable ex_x])) = [ex_x]"
    by (simp add: inputvars_def inputs_def List.map_filter_def)
  have two: "inputvars (Inl (Apply ''add'' [TensorVariable ex_x, TensorVariable ex_y])) = [ex_x, ex_y]"
    by (simp add: inputvars_def inputs_def List.map_filter_def ex_x_def ex_y_def)
  have none: "inputvars (Inl (Zeros 2 ''float64'')) = []"
    by (simp add: inputvars_def inputs_def List.map_filter_def)
  show ?thesis
    using callable_tensor_one_input
            [of "Apply ''add'' [TensorVariable ex_x, TensorVariable ex_x]" "Zeros 2 ''float64''"]
          callable_tensor_one_input
            [of "Apply ''add'' [TensorVariable ex_x, TensorVariable ex_y]" "Zeros 2 ''float64''"]
          callable_tensor_one_input [of "Zeros 2 ''float64''" "TensorVariable ex_x"]
    by (simp add: one two none)
qed

end
